theory Spec2Isabelle
  imports Complex_Main
begin

section \<open>Data model of \<open>facial_recognition.py\<close>\<close>

text \<open>
  Wall-clock readings (\<open>time.time()\<close>) and confidences are Python floats; they are
  modelled as real numbers. A session is one value of the \<open>detections\<close> dictionary
  (keys \<open>"start"\<close>, \<open>"last_seen"\<close>, \<open>"confidence"\<close>).
\<close>

record session =
  start :: real
  last_seen :: real
  confidence :: real

text \<open>
  The two commands the script sends to the servo: \<open>pwm.ChangeDutyCycle(7.5)\<close> (open
  position) and \<open>pwm.ChangeDutyCycle(2.5)\<close> (closed position).
\<close>

datatype actuator_effect = OpenEffect | CloseEffect

text \<open>A CSV cell is a string or a number; a row is a list of cells.\<close>

datatype cell = Str string | Num real

type_synonym csv_row = "cell list"

text \<open>
  The module-level variables of the script. \<open>detections\<close> is a Python dictionary, which
  keeps insertion order: an association list with unique keys. \<open>pwm\<close> is the log of servo
  commands issued so far, oldest first. \<open>csv_file\<close> is the content of
  \<open>detections_log.csv\<close> as the list of append operations performed on it, oldest first,
  each operation being the rows it wrote.
\<close>

record state =
  servo_state :: bool
  last_seen_time :: real
  last_button_press :: real
  last_log_time :: real
  start_time :: real
  fps :: real
  detections :: "(string \<times> session) list"
  pwm :: "actuator_effect list"
  csv_file :: "csv_row list list"

definition SERVO_TIMEOUT :: real where
  "SERVO_TIMEOUT = 5"

definition BUTTON_PRESS_TIMEOUT :: real where
  "BUTTON_PRESS_TIMEOUT = 5"

definition LOG_INTERVAL :: real where
  "LOG_INTERVAL = 5 * 60"

definition staff :: "string list" where
  "staff = [''dinith'', ''isuru'', ''dulaj'', ''nimesh'']"

definition csv_header :: csv_row where
  "csv_header = [Str ''timestamp'', Str ''name'', Str ''confidence'',
                 Str ''detected_duration'', Str ''day'']"

text \<open>
  Lines 33--54: the initial values of the variables, and the CSV set-up, which opens the
  file in append mode and writes the header row. The two clock readings are those of
  lines 37 and 46; \<open>file\<close> is what the file held before the process started.
\<close>

definition startup :: "real \<Rightarrow> real \<Rightarrow> csv_row list list \<Rightarrow> state" where
  "startup t_start0 t_log0 file =
     \<lparr> servo_state = False, last_seen_time = 0, last_button_press = 0,
       last_log_time = t_log0, start_time = t_start0, fps = 0,
       detections = [], pwm = [], csv_file = file @ [[csv_header]] \<rparr>"

subsection \<open>Strings\<close>

text \<open>
  \<open>str.lower()\<close> on the ASCII range: the letters \<open>A\<close>..\<open>Z\<close> move to \<open>a\<close>..\<open>z\<close>, every
  other character stays. (Outside ASCII the only code point Python lowers to an ASCII
  letter is the Kelvin sign, to \<open>k\<close>, a letter no roster name contains.)
\<close>

definition lower_char :: "char \<Rightarrow> char" where
  "lower_char c =
     (let n = (of_char c :: nat) in if 65 \<le> n \<and> n \<le> 90 then char_of (n + 32) else c)"

definition lower :: "string \<Rightarrow> string" where
  "lower name = map lower_char name"

subsection \<open>Rounding\<close>

text \<open>
  \<open>round(x, 2)\<close>: the nearest multiple of one hundredth, a tie going to the even
  neighbour, computed here on the exact real value.
\<close>

definition round_half_even :: "real \<Rightarrow> int" where
  "round_half_even y =
     (let f = \<lfloor>y\<rfloor>; d = y - of_int f
      in if d < 1 / 2 then f else if 1 / 2 < d then f + 1 else if even f then f else f + 1)"

definition py_round2 :: "real \<Rightarrow> real" where
  "py_round2 x = of_int (round_half_even (x * 100)) / 100"

section \<open>The servo helpers\<close>

text \<open>\<open>open_servo\<close> (lines 57--62); \<open>t\<close> is its own reading of the clock.\<close>

definition open_servo :: "real \<Rightarrow> state \<Rightarrow> state" where
  "open_servo t s =
     s\<lparr> pwm := pwm s @ [OpenEffect], servo_state := True, last_seen_time := t \<rparr>"

text \<open>\<open>close_servo\<close> (lines 64--68).\<close>

definition close_servo :: "state \<Rightarrow> state" where
  "close_servo s = s\<lparr> pwm := pwm s @ [CloseEffect], servo_state := False \<rparr>"

section \<open>Recording detections and deciding on a frame\<close>

text \<open>
  Lines 108--113, the update of the \<open>detections\<close> dictionary for one recognised face:
  nothing for the name \<open>"Unknown"\<close>; a new entry, appended, for a name that is not a key;
  otherwise \<open>last_seen\<close> and \<open>confidence\<close> of the existing entry are overwritten in place.
\<close>

fun update_session :: "string \<Rightarrow> real \<Rightarrow> real \<Rightarrow> (string \<times> session) list
    \<Rightarrow> (string \<times> session) list" where
  "update_session name conf t [] =
     [(name, \<lparr> start = t, last_seen = t, confidence = conf \<rparr>)]"
| "update_session name conf t ((k, info) # rest) =
     (if k = name then (k, info\<lparr> last_seen := t, confidence := conf \<rparr>) # rest
      else (k, info) # update_session name conf t rest)"

definition record_detection :: "string \<Rightarrow> real \<Rightarrow> real \<Rightarrow> (string \<times> session) list
    \<Rightarrow> (string \<times> session) list" where
  "record_detection name conf t ds =
     (if name \<noteq> ''Unknown'' then update_session name conf t ds else ds)"

text \<open>
  What one frame's processing reads from the outside, in the order of the reads:
  the clock at line 89, the clock inside \<open>open_servo\<close> when \<open>draw_results\<close> opens, the
  button at line 119, the button at line 155, the clock at line 156, the clock inside
  \<open>open_servo\<close> when the button opens, the clock and the button at line 163.
\<close>

record engine_env =
  t_draw :: real
  t_open_draw :: real
  b_draw :: bool
  b_main :: bool
  t_button :: real
  t_open_button :: real
  t_close :: real
  b_close :: bool

text \<open>
  The loop of \<open>draw_results\<close> (lines 92--113) over the recognised faces, each a name
  and a confidence. The drawing calls have no effect on the variables and are left out.
\<close>

fun draw_loop :: "real \<Rightarrow> (string \<times> real) list \<Rightarrow> bool \<Rightarrow> state \<Rightarrow> bool \<times> state" where
  "draw_loop current_time [] detected_staff s = (detected_staff, s)"
| "draw_loop current_time ((name, conf) # rest) detected_staff s =
     (let (detected_staff', s') =
            (if lower name \<in> set staff
             then (True, s\<lparr> last_seen_time := current_time \<rparr>)
             else (detected_staff, s));
          s'' = s'\<lparr> detections := record_detection name conf current_time (detections s') \<rparr>
      in draw_loop current_time rest detected_staff' s'')"

text \<open>\<open>draw_results\<close> (lines 87--120).\<close>

definition draw_results :: "engine_env \<Rightarrow> (string \<times> real) list \<Rightarrow> state \<Rightarrow> state" where
  "draw_results e results s0 =
     (let current_time = t_draw e;
          (detected_staff, s) = draw_loop current_time results False s0
      in if detected_staff \<and> \<not> servo_state s then open_servo (t_open_draw e) s
         else if servo_state s \<and> current_time - last_seen_time s > SERVO_TIMEOUT
                 \<and> \<not> b_draw e
         then close_servo s
         else s)"

text \<open>The button control of the main loop (lines 154--160).\<close>

definition button_control :: "engine_env \<Rightarrow> state \<Rightarrow> state" where
  "button_control e s =
     (if b_main e then
        (let current_time = t_button e
         in if current_time - last_button_press s > 0.5
            then open_servo (t_open_button e) (s\<lparr> last_button_press := current_time \<rparr>)
            else s)
      else s)"

text \<open>The automatic close of the main loop (lines 162--164).\<close>

definition auto_close :: "engine_env \<Rightarrow> state \<Rightarrow> state" where
  "auto_close e s =
     (if servo_state s \<and> t_close e - last_seen_time s > BUTTON_PRESS_TIMEOUT \<and> \<not> b_close e
      then close_servo s else s)"

text \<open>Lines 151--164 of one iteration: the three decision paths in sequence.\<close>

definition engine_tick :: "engine_env \<Rightarrow> (string \<times> real) list \<Rightarrow> state \<Rightarrow> state" where
  "engine_tick e results s = auto_close e (button_control e (draw_results e results s))"

section \<open>Logging\<close>

text \<open>
  The exceptions of the model: the division of line 167, an interrupt from the keyboard,
  a failure of the file operations of lines 132--134, and an error raised by OpenCV.
\<close>

datatype py_error = ZeroDivisionError | KeyboardInterrupt | OSError | Cv2Error

text \<open>
  How the \<open>with open(...)\<close> statement of lines 132--134 ends: every row is written, or
  an \<open>OSError\<close> is raised when only the first \<open>k\<close> rows have reached the file (none when
  the file cannot be opened).
\<close>

datatype append_outcome = Appended | AppendFailed nat

definition log_row :: "string \<Rightarrow> string \<Rightarrow> string \<times> session \<Rightarrow> csv_row" where
  "log_row now day entry =
     (case entry of (name, info) \<Rightarrow>
        [Str now, Str name, Num (confidence info),
         Num (py_round2 (last_seen info - start info)), Str day])"

text \<open>
  \<open>log_detections\<close> (lines 122--137). \<open>now\<close> and \<open>day\<close> are the two formatted readings
  of \<open>datetime.now()\<close>. One row per entry of \<open>detections\<close>, in the dictionary's order; the
  file is opened and appended to only when there is a row. When the append raises, the
  call is left with the error and the variables of that moment (\<open>Inl\<close>), the dictionary
  not cleared; otherwise the dictionary is cleared and the call returns (\<open>Inr\<close>).
\<close>

definition log_detections :: "append_outcome \<Rightarrow> string \<Rightarrow> string \<Rightarrow> state
    \<Rightarrow> (py_error \<times> state) + state" where
  "log_detections a now day s =
     (let rows = map (log_row now day) (detections s)
      in if rows \<noteq> [] then
           (case a of
              Appended \<Rightarrow> Inr (s\<lparr> csv_file := csv_file s @ [rows], detections := [] \<rparr>)
            | AppendFailed k \<Rightarrow>
                Inl (OSError,
                     if 0 < k then s\<lparr> csv_file := csv_file s @ [take k rows] \<rparr> else s))
         else Inr (s\<lparr> detections := [] \<rparr>))"

section \<open>The main loop\<close>

text \<open>
  What the rest of an iteration reads: the clock at lines 167 and 168, the clock at
  line 175, the two date strings of \<open>log_detections\<close> and how its append ends, the
  clock at line 177, and whether \<open>cv2.waitKey(1)\<close> returned the key \<open>q\<close>.
\<close>

record loop_env =
  t_fps :: real
  t_restart :: real
  t_log :: real
  now_label :: string
  day_label :: string
  log_append :: append_outcome
  t_logged :: real
  quit_key :: bool

text \<open>How an iteration ends: the loop goes on, a \<open>break\<close>, or an exception.\<close>

datatype control = Continue | Break | Raised py_error

text \<open>
  Lines 166--168. The division raises when the clock has not advanced since the
  previous iteration.
\<close>

definition fps_display :: "loop_env \<Rightarrow> state \<Rightarrow> py_error + state" where
  "fps_display l s =
     (if t_fps l - start_time s = 0 then Inl ZeroDivisionError
      else Inr (s\<lparr> fps := (fps s * 0.9) + (1 / (t_fps l - start_time s)) * 0.1,
                   start_time := t_restart l \<rparr>))"

text \<open>Lines 174--177; an error of \<open>log_detections\<close> leaves line 177 out.\<close>

definition periodic_log :: "loop_env \<Rightarrow> state \<Rightarrow> (py_error \<times> state) + state" where
  "periodic_log l s =
     (if t_log l - last_log_time s \<ge> LOG_INTERVAL
      then (case log_detections (log_append l) (now_label l) (day_label l) s of
              Inl failure \<Rightarrow> Inl failure
            | Inr s' \<Rightarrow> Inr (s'\<lparr> last_log_time := t_logged l \<rparr>))
      else Inr s)"

text \<open>One iteration after a frame was read (lines 150--180).\<close>

definition loop_body :: "engine_env \<Rightarrow> loop_env \<Rightarrow> (string \<times> real) list \<Rightarrow> state
    \<Rightarrow> control \<times> state" where
  "loop_body e l results s =
     (let s1 = engine_tick e results s
      in case fps_display l s1 of
           Inl err \<Rightarrow> (Raised err, s1)
         | Inr s2 \<Rightarrow>
             (case periodic_log l s2 of
                Inl (err, s3) \<Rightarrow> (Raised err, s3)
              | Inr s3 \<Rightarrow> (if quit_key l then Break else Continue, s3)))"

text \<open>
  What \<open>camera.read()\<close> delivers at the top of an iteration: no frame (\<open>ret\<close> is false),
  a frame with the faces recognised in it and the readings of that iteration, or an
  interrupt from the keyboard while the read blocks.
\<close>

datatype camera_event =
    NoFrame
  | Frame "(string \<times> real) list" engine_env loop_env
  | Interrupt

text \<open>
  The \<open>while True\<close> loop (lines 144--180) over the events that have happened so far.
  The result is \<open>None\<close> while the loop is still running after the last of them, and
  otherwise how the loop was left and with which variables.
\<close>

fun main_loop :: "state \<Rightarrow> camera_event list \<Rightarrow> (control \<times> state) option" where
  "main_loop s [] = None"
| "main_loop s (NoFrame # evs) = Some (Break, s)"
| "main_loop s (Interrupt # evs) = Some (Raised KeyboardInterrupt, s)"
| "main_loop s (Frame results e l # evs) =
     (case loop_body e l results s of
        (Continue, s') \<Rightarrow> main_loop s' evs
      | (c, s') \<Rightarrow> Some (c, s'))"

text \<open>
  What the \<open>finally\<close> block meets: how the append of its \<open>log_detections\<close> ends, and
  whether \<open>camera.release()\<close> and \<open>cv2.destroyAllWindows()\<close> raise.
\<close>

record finally_env =
  final_append :: append_outcome
  release_raises :: bool
  destroy_raises :: bool

text \<open>
  The \<open>finally\<close> block (lines 182--189) up to \<open>close_servo()\<close>: the four calls of lines
  183--186 in their order, none of them guarded, so that an error of one of the first
  three leaves the block before the servo is addressed. The calls after
  \<open>close_servo()\<close> leave the variables alone.
\<close>

definition finally_block :: "finally_env \<Rightarrow> string \<Rightarrow> string \<Rightarrow> state
    \<Rightarrow> (py_error \<times> state) + state" where
  "finally_block fe now day s =
     (case log_detections (final_append fe) now day s of
        Inl failure \<Rightarrow> Inl failure
      | Inr s1 \<Rightarrow>
          if release_raises fe then Inl (Cv2Error, s1)
          else if destroy_raises fe then Inl (Cv2Error, s1)
          else Inr (close_servo s1))"

text \<open>
  The \<open>try\<close> statement as a whole: the loop, then the \<open>finally\<close> block. An exception
  raised inside the \<open>finally\<close> block replaces the way the loop was left.
\<close>

definition main :: "finally_env \<Rightarrow> string \<Rightarrow> string \<Rightarrow> state \<Rightarrow> camera_event list
    \<Rightarrow> (control \<times> state) option" where
  "main fe now day s evs =
     (case main_loop s evs of
        None \<Rightarrow> None
      | Some (c, s') \<Rightarrow>
          (case finally_block fe now day s' of
             Inl (err, s'') \<Rightarrow> Some (Raised err, s'')
           | Inr s'' \<Rightarrow> Some (c, s'')))"

section \<open>Notions used to state the properties\<close>

text \<open>
  A tick in which every clock reading is \<open>now\<close> and every button sample is \<open>btn\<close>.
\<close>

definition uniform_env :: "real \<Rightarrow> bool \<Rightarrow> engine_env" where
  "uniform_env now btn =
     \<lparr> t_draw = now, t_open_draw = now, b_draw = btn, b_main = btn,
       t_button = now, t_open_button = now, t_close = now, b_close = btn \<rparr>"

text \<open>
  The same for the rest of an iteration, with the two date strings and the key, and an
  append that succeeds.
\<close>

definition uniform_loop_env :: "real \<Rightarrow> string \<Rightarrow> string \<Rightarrow> bool \<Rightarrow> loop_env" where
  "uniform_loop_env now now_lab day_lab q =
     \<lparr> t_fps = now, t_restart = now, t_log = now, now_label = now_lab, day_label = day_lab,
       log_append = Appended, t_logged = now, quit_key = q \<rparr>"

text \<open>A \<open>finally\<close> block in which nothing raises.\<close>

definition no_fault :: finally_env where
  "no_fault = \<lparr> final_append = Appended, release_raises = False, destroy_raises = False \<rparr>"

text \<open>The variables when a call is left, by a return or by an exception.\<close>

definition final_state :: "(py_error \<times> state) + state \<Rightarrow> state" where
  "final_state r = (case r of Inl (err, s) \<Rightarrow> s | Inr s \<Rightarrow> s)"

text \<open>The servo commands that a step from \<open>s\<close> to \<open>s'\<close> added to the log.\<close>

definition issued :: "state \<Rightarrow> state \<Rightarrow> actuator_effect list" where
  "issued s s' = drop (length (pwm s)) (pwm s')"

definition tick_effects :: "engine_env \<Rightarrow> (string \<times> real) list \<Rightarrow> state
    \<Rightarrow> actuator_effect list" where
  "tick_effects e results s = issued s (engine_tick e results s)"

text \<open>Some face of the frame carries a roster name, compared in lower case.\<close>

definition trusted_detected :: "(string \<times> real) list \<Rightarrow> bool" where
  "trusted_detected results = list_ex (\<lambda>(name, conf). lower name \<in> set staff) results"

text \<open>
  Replaying a list of commands from a latch state: some command asks for the state the
  latch is already in.
\<close>

fun redundant :: "bool \<Rightarrow> actuator_effect list \<Rightarrow> bool" where
  "redundant latch [] = False"
| "redundant latch (OpenEffect # es) = (if latch then True else redundant True es)"
| "redundant latch (CloseEffect # es) = (if latch then redundant False es else True)"

text \<open>The button press of a tick is accepted: pressed, and past the debounce interval.\<close>

definition press_accepted :: "engine_env \<Rightarrow> state \<Rightarrow> bool" where
  "press_accepted e s = (b_main e \<and> t_button e - last_button_press s > 0.5)"

text \<open>The guard under which \<open>draw_results\<close> closes, on the variables before the call.\<close>

definition closes_in_draw :: "engine_env \<Rightarrow> (string \<times> real) list \<Rightarrow> state \<Rightarrow> bool" where
  "closes_in_draw e results s =
     (servo_state s \<and> \<not> trusted_detected results
      \<and> t_draw e - last_seen_time s > SERVO_TIMEOUT \<and> \<not> b_draw e)"

text \<open>The guard of the automatic close of the main loop.\<close>

definition closes_in_main :: "engine_env \<Rightarrow> state \<Rightarrow> bool" where
  "closes_in_main e s =
     (servo_state s \<and> t_close e - last_seen_time s > BUTTON_PRESS_TIMEOUT \<and> \<not> b_close e)"

text \<open>
  A history of ticks, each with its recognition results, its button sample and its
  timestamp, and the run of the decision paths over it.
\<close>

type_synonym tick_input = "(string \<times> real) list \<times> bool \<times> real"

fun engine_run :: "state \<Rightarrow> tick_input list \<Rightarrow> state" where
  "engine_run s [] = s"
| "engine_run s ((results, btn, now) # rest) =
     engine_run (engine_tick (uniform_env now btn) results s) rest"

text \<open>
  The timestamp of the last tick of a history whose results held a roster name, and
  \<open>t\<close> when there is none.
\<close>

fun last_trusted_sighting :: "real \<Rightarrow> tick_input list \<Rightarrow> real" where
  "last_trusted_sighting t [] = t"
| "last_trusted_sighting t ((results, btn, now) # rest) =
     last_trusted_sighting (if trusted_detected results then now else t) rest"

text \<open>
  The timestamp of the last accepted press of a history: a tick whose button sample is
  pressed more than 0.5 after the accepted press before it; \<open>p\<close> when there is none.
\<close>

fun last_accepted_press :: "real \<Rightarrow> tick_input list \<Rightarrow> real" where
  "last_accepted_press p [] = p"
| "last_accepted_press p ((results, btn, now) # rest) =
     last_accepted_press (if btn \<and> now - p > 0.5 then now else p) rest"

text \<open>The timestamps of a history never decrease, starting at \<open>t\<close>.\<close>

fun nondecreasing_from :: "real \<Rightarrow> tick_input list \<Rightarrow> bool" where
  "nondecreasing_from t [] = True"
| "nondecreasing_from t ((results, btn, now) # rest) = (t \<le> now \<and> nondecreasing_from now rest)"

fun last_time :: "real \<Rightarrow> tick_input list \<Rightarrow> real" where
  "last_time t [] = t"
| "last_time t ((results, btn, now) # rest) = last_time now rest"

text \<open>
  What the timers look like after a history whose last trusted sighting was at \<open>lt\<close>
  and whose last tick was at \<open>tk\<close>.
\<close>

definition engine_inv :: "real \<Rightarrow> real \<Rightarrow> state \<Rightarrow> bool" where
  "engine_inv lt tk s =
     (last_seen_time s = max lt (last_button_press s) \<and> last_button_press s \<le> tk \<and> lt \<le> tk)"

text \<open>A sequence of sightings, each a name, a confidence and a timestamp, recorded in order.\<close>

fun record_all :: "(string \<times> real \<times> real) list \<Rightarrow> (string \<times> session) list
    \<Rightarrow> (string \<times> session) list" where
  "record_all [] ds = ds"
| "record_all ((name, conf, t) # ops) ds = record_all ops (record_detection name conf t ds)"

text \<open>Every session started no later than it was last seen, and was last seen by \<open>t\<close>.\<close>

definition sessions_before :: "real \<Rightarrow> (string \<times> session) list \<Rightarrow> bool" where
  "sessions_before t ds =
     list_all (\<lambda>(name, info). start info \<le> last_seen info \<and> last_seen info \<le> t) ds"


section \<open>Auxiliary facts\<close>

lemma draw_loop_Cons:
  "draw_loop t ((name, conf) # rest) d s =
     draw_loop t rest (d \<or> lower name \<in> set staff)
       ((if lower name \<in> set staff then s\<lparr> last_seen_time := t \<rparr> else s)
          \<lparr> detections := record_detection name conf t (detections s) \<rparr>)"
  by simp

lemma draw_loop_detected:
  "fst (draw_loop t results d s) = (d \<or> trusted_detected results)"
  by (induction results arbitrary: d s)
     (auto simp: trusted_detected_def draw_loop_Cons simp del: draw_loop.simps(2)
        split: if_splits)

lemma draw_loop_servo_state [simp]:
  "servo_state (snd (draw_loop t results d s)) = servo_state s"
  by (induction results arbitrary: d s)
     (auto simp: draw_loop_Cons simp del: draw_loop.simps(2) split: if_splits)

lemma draw_loop_pwm [simp]:
  "pwm (snd (draw_loop t results d s)) = pwm s"
  by (induction results arbitrary: d s)
     (auto simp: draw_loop_Cons simp del: draw_loop.simps(2) split: if_splits)

lemma draw_loop_last_button_press [simp]:
  "last_button_press (snd (draw_loop t results d s)) = last_button_press s"
  by (induction results arbitrary: d s)
     (auto simp: draw_loop_Cons simp del: draw_loop.simps(2) split: if_splits)

lemma draw_loop_csv_file [simp]:
  "csv_file (snd (draw_loop t results d s)) = csv_file s"
  by (induction results arbitrary: d s)
     (auto simp: draw_loop_Cons simp del: draw_loop.simps(2) split: if_splits)

lemma draw_loop_last_seen_time:
  "last_seen_time (snd (draw_loop t results d s)) =
     (if trusted_detected results then t else last_seen_time s)"
  by (induction results arbitrary: d s)
     (auto simp: trusted_detected_def draw_loop_Cons simp del: draw_loop.simps(2)
        split: if_splits)

lemma draw_loop_detections:
  "detections (snd (draw_loop t results d s)) =
     foldl (\<lambda>ds (name, conf). record_detection name conf t ds) (detections s) results"
  by (induction results arbitrary: d s)
     (auto simp: draw_loop_Cons simp del: draw_loop.simps(2) split: if_splits)

lemma draw_results_unfold:
  "draw_results e results s =
     (let s' = snd (draw_loop (t_draw e) results False s)
      in if trusted_detected results \<and> \<not> servo_state s then open_servo (t_open_draw e) s'
         else if servo_state s \<and> \<not> trusted_detected results
                 \<and> t_draw e - last_seen_time s > SERVO_TIMEOUT \<and> \<not> b_draw e
         then close_servo s'
         else s')"
  using draw_loop_detected [of "t_draw e" results False s]
        draw_loop_last_seen_time [of "t_draw e" results False s]
        draw_loop_servo_state [of "t_draw e" results False s]
  by (cases "draw_loop (t_draw e) results False s")
     (simp add: draw_results_def Let_def SERVO_TIMEOUT_def)

lemma draw_results_pwm:
  "pwm (draw_results e results s) =
     pwm s @ (if trusted_detected results \<and> \<not> servo_state s then [OpenEffect]
              else if closes_in_draw e results s then [CloseEffect] else [])"
  by (simp add: draw_results_unfold closes_in_draw_def Let_def open_servo_def close_servo_def)

lemma draw_results_servo_state:
  "servo_state (draw_results e results s) =
     (if trusted_detected results \<and> \<not> servo_state s then True
      else if closes_in_draw e results s then False else servo_state s)"
  by (simp add: draw_results_unfold closes_in_draw_def Let_def open_servo_def close_servo_def)

lemma draw_results_last_seen_time:
  "last_seen_time (draw_results e results s) =
     (if trusted_detected results
      then (if servo_state s then t_draw e else t_open_draw e)
      else last_seen_time s)"
  by (simp add: draw_results_unfold Let_def open_servo_def close_servo_def
        draw_loop_last_seen_time)

lemma draw_results_last_button_press [simp]:
  "last_button_press (draw_results e results s) = last_button_press s"
  by (simp add: draw_results_unfold Let_def open_servo_def close_servo_def)

lemma draw_results_detections:
  "detections (draw_results e results s) =
     foldl (\<lambda>ds (name, conf). record_detection name conf (t_draw e) ds) (detections s) results"
  by (simp add: draw_results_unfold Let_def open_servo_def close_servo_def draw_loop_detections)

lemma draw_results_csv_file [simp]:
  "csv_file (draw_results e results s) = csv_file s"
  by (simp add: draw_results_unfold Let_def open_servo_def close_servo_def)

lemma button_control_pwm:
  "pwm (button_control e s) = pwm s @ (if press_accepted e s then [OpenEffect] else [])"
  by (simp add: button_control_def press_accepted_def open_servo_def Let_def)

lemma button_control_servo_state:
  "servo_state (button_control e s) = (press_accepted e s \<or> servo_state s)"
  by (simp add: button_control_def press_accepted_def open_servo_def Let_def)

lemma button_control_last_seen_time:
  "last_seen_time (button_control e s) =
     (if press_accepted e s then t_open_button e else last_seen_time s)"
  by (simp add: button_control_def press_accepted_def open_servo_def Let_def)

lemma button_control_last_button_press:
  "last_button_press (button_control e s) =
     (if press_accepted e s then t_button e else last_button_press s)"
  by (simp add: button_control_def press_accepted_def open_servo_def Let_def)

lemma button_control_detections [simp]:
  "detections (button_control e s) = detections s"
  by (simp add: button_control_def open_servo_def Let_def)

lemma button_control_csv_file [simp]:
  "csv_file (button_control e s) = csv_file s"
  by (simp add: button_control_def open_servo_def Let_def)

lemma auto_close_pwm:
  "pwm (auto_close e s) = pwm s @ (if closes_in_main e s then [CloseEffect] else [])"
  by (simp add: auto_close_def closes_in_main_def close_servo_def)

lemma auto_close_servo_state:
  "servo_state (auto_close e s) = (servo_state s \<and> \<not> closes_in_main e s)"
  by (auto simp add: auto_close_def closes_in_main_def close_servo_def)

lemma auto_close_other [simp]:
  "last_seen_time (auto_close e s) = last_seen_time s"
  "last_button_press (auto_close e s) = last_button_press s"
  "detections (auto_close e s) = detections s"
  "csv_file (auto_close e s) = csv_file s"
  by (simp_all add: auto_close_def close_servo_def)

lemma press_accepted_draw_results [simp]:
  "press_accepted e (draw_results e results s) = press_accepted e s"
  by (simp add: press_accepted_def)

lemma tick_effects_eq:
  "tick_effects e results s =
     (if trusted_detected results \<and> \<not> servo_state s then [OpenEffect]
      else if closes_in_draw e results s then [CloseEffect] else [])
     @ (if press_accepted e s then [OpenEffect] else [])
     @ (if closes_in_main e (button_control e (draw_results e results s))
        then [CloseEffect] else [])"
  by (simp add: tick_effects_def issued_def engine_tick_def auto_close_pwm button_control_pwm
        draw_results_pwm)

lemma uniform_env_simps [simp]:
  "t_draw (uniform_env now btn) = now" "t_open_draw (uniform_env now btn) = now"
  "b_draw (uniform_env now btn) = btn" "b_main (uniform_env now btn) = btn"
  "t_button (uniform_env now btn) = now" "t_open_button (uniform_env now btn) = now"
  "t_close (uniform_env now btn) = now" "b_close (uniform_env now btn) = btn"
  by (simp_all add: uniform_env_def)

lemma engine_tick_last_button_press:
  "last_button_press (engine_tick e results s) =
     (if press_accepted e s then t_button e else last_button_press s)"
  by (simp add: engine_tick_def button_control_last_button_press)

lemma engine_tick_last_seen_time:
  "last_seen_time (engine_tick e results s) =
     (if press_accepted e s then t_open_button e
      else if trusted_detected results
      then (if servo_state s then t_draw e else t_open_draw e)
      else last_seen_time s)"
  by (simp add: engine_tick_def button_control_last_seen_time draw_results_last_seen_time)

lemma engine_inv_tick:
  assumes "engine_inv lt tk s" and "tk \<le> now"
  shows "engine_inv (if trusted_detected results then now else lt) now
           (engine_tick (uniform_env now btn) results s)"
  using assms
  by (auto simp: engine_inv_def engine_tick_last_button_press engine_tick_last_seen_time
        press_accepted_def)

lemma engine_inv_run:
  "engine_inv lt tk s \<Longrightarrow> nondecreasing_from tk h \<Longrightarrow>
     engine_inv (last_trusted_sighting lt h) (last_time tk h) (engine_run s h)"
proof (induction h arbitrary: lt tk s)
  case Nil
  then show ?case by simp
next
  case (Cons x h)
  obtain results btn now where x: "x = (results, btn, now)" by (cases x)
  from Cons.prems have "tk \<le> now" and nd: "nondecreasing_from now h" by (simp_all add: x)
  with Cons.prems(1) have "engine_inv (if trusted_detected results then now else lt) now
           (engine_tick (uniform_env now btn) results s)" by (simp add: engine_inv_tick)
  from Cons.IH [OF this nd] show ?case by (simp add: x)
qed

lemma engine_inv_startup: "engine_inv 0 0 (startup ts tk file)"
  by (simp add: engine_inv_def startup_def)

lemma nondecreasing_from_append:
  "nondecreasing_from t (h @ [(results, btn, now)]) =
     (nondecreasing_from t h \<and> last_time t h \<le> now)"
  by (induction h arbitrary: t) auto

lemma last_trusted_sighting_append:
  "last_trusted_sighting t (h @ [(results, btn, now)]) =
     (if trusted_detected results then now else last_trusted_sighting t h)"
  by (induction h arbitrary: t) auto

lemma close_in_tick_iff:
  assumes "engine_inv lt tk s" and "tk \<le> now"
  shows "(CloseEffect \<in> set (tick_effects (uniform_env now btn) results s)) =
         (servo_state s
          \<and> now - (if trusted_detected results then now else lt) > SERVO_TIMEOUT
          \<and> now - last_button_press (engine_tick (uniform_env now btn) results s)
              > BUTTON_PRESS_TIMEOUT
          \<and> \<not> btn)"
  using assms
  by (auto simp: tick_effects_eq engine_inv_def closes_in_draw_def closes_in_main_def
        button_control_servo_state button_control_last_seen_time draw_results_servo_state
        draw_results_last_seen_time engine_tick_last_button_press press_accepted_def
        SERVO_TIMEOUT_def BUTTON_PRESS_TIMEOUT_def split: if_splits)

lemma round_half_even_0 [simp]: "round_half_even 0 = 0"
  by (simp add: round_half_even_def)

lemma py_round2_0 [simp]: "py_round2 0 = 0"
  by (simp add: py_round2_def)

lemma round_half_even_nonneg: "0 \<le> y \<Longrightarrow> 0 \<le> round_half_even y"
  by (auto simp: round_half_even_def Let_def)

lemma py_round2_nonneg: "0 \<le> x \<Longrightarrow> 0 \<le> py_round2 x"
  by (simp add: py_round2_def round_half_even_nonneg)

lemma map_of_update_session:
  "map_of (update_session name conf t ds) =
     (map_of ds)(name \<mapsto> (case map_of ds name of
                          None \<Rightarrow> \<lparr> start = t, last_seen = t, confidence = conf \<rparr>
                        | Some info \<Rightarrow> info\<lparr> last_seen := t, confidence := conf \<rparr>))"
  by (induction ds) (auto simp: fun_eq_iff)

lemma keys_update_session:
  "set (map fst (update_session name conf t ds)) = insert name (set (map fst ds))"
  by (induction name conf t ds rule: update_session.induct) (simp_all add: insert_commute)

lemma distinct_update_session:
  "distinct (map fst ds) \<Longrightarrow> distinct (map fst (update_session name conf t ds))"
  using keys_update_session [of name conf t]
  by (induction name conf t ds rule: update_session.induct) (auto simp del: set_map)

lemma distinct_record_detection:
  "distinct (map fst ds) \<Longrightarrow> distinct (map fst (record_detection name conf t ds))"
  by (simp add: record_detection_def distinct_update_session)

lemma distinct_record_all:
  "distinct (map fst ds) \<Longrightarrow> distinct (map fst (record_all ops ds))"
  by (induction ops arbitrary: ds) (auto simp: distinct_record_detection)

lemma sessions_before_mono:
  "sessions_before t0 ds \<Longrightarrow> t0 \<le> t \<Longrightarrow> sessions_before t ds"
  by (induction ds) (auto simp: sessions_before_def)

lemma sessions_before_update:
  "sessions_before t0 ds \<Longrightarrow> t0 \<le> t \<Longrightarrow> sessions_before t (update_session name conf t ds)"
proof (induction name conf t ds rule: update_session.induct)
  case (1 name conf t)
  then show ?case by (simp add: sessions_before_def)
next
  case (2 name conf t k info rest)
  from "2.prems" have rest: "sessions_before t0 rest" and info: "start info \<le> last_seen info"
    "last_seen info \<le> t0"
    by (simp_all add: sessions_before_def)
  from rest "2.prems"(2) have "sessions_before t rest" by (rule sessions_before_mono)
  with "2.IH" rest info "2.prems"(2) show ?case
    by (auto simp: sessions_before_def)
qed

lemma sessions_before_record:
  "sessions_before t0 ds \<Longrightarrow> t0 \<le> t \<Longrightarrow> sessions_before t (record_detection name conf t ds)"
  by (simp add: record_detection_def sessions_before_update sessions_before_mono)

lemma sessions_before_record_all:
  "sessions_before t0 ds \<Longrightarrow> sorted (t0 # map (\<lambda>(name, conf, t). t) ops) \<Longrightarrow>
     \<exists>t1. sessions_before t1 (record_all ops ds)"
proof (induction ops arbitrary: t0 ds)
  case Nil
  then show ?case by auto
next
  case (Cons op ops)
  obtain name conf t where op: "op = (name, conf, t)" by (cases op)
  from Cons.prems have "t0 \<le> t" and "sorted (t # map (\<lambda>(name, conf, t). t) ops)"
    by (auto simp: op)
  with Cons.prems(1) Cons.IH [of t "record_detection name conf t ds"]
  show ?case by (auto simp: op sessions_before_record)
qed

lemma map_of_record_detection_other:
  "name' \<noteq> name \<Longrightarrow> map_of (record_detection name' conf t ds) name = map_of ds name"
  by (simp add: record_detection_def map_of_update_session)

lemma map_of_record_all_absent:
  "\<forall>op \<in> set ops. fst op \<noteq> name \<Longrightarrow>
     map_of (record_all ops ds) name = map_of ds name"
  by (induction ops arbitrary: ds) (auto simp: map_of_record_detection_other)

lemma single_sighting:
  assumes "map_of ds name = None" and "name \<noteq> ''Unknown''"
      and "filter (\<lambda>op. fst op = name) ops = [(name, conf, t)]"
  shows "map_of (record_all ops ds) name = Some \<lparr> start = t, last_seen = t, confidence = conf \<rparr>"
  using assms
proof (induction ops arbitrary: ds)
  case Nil
  then show ?case by simp
next
  case (Cons op ops)
  obtain name' conf' t' where op: "op = (name', conf', t')" by (cases op)
  show ?case
  proof (cases "name' = name")
    case True
    with Cons.prems(3) have eq: "conf' = conf" "t' = t"
      and rest: "filter (\<lambda>op. fst op = name) ops = []"
      by (simp_all add: op)
    from rest have "\<forall>op \<in> set ops. fst op \<noteq> name"
      by (auto simp: filter_empty_conv)
    then have "map_of (record_all ops (record_detection name conf t ds)) name =
        map_of (record_detection name conf t ds) name"
      by (rule map_of_record_all_absent)
    with Cons.prems(1,2) show ?thesis
      by (simp add: op True eq record_detection_def map_of_update_session)
  next
    case False
    with Cons.prems have "map_of (record_detection name' conf' t' ds) name = None"
      and "filter (\<lambda>op. fst op = name) ops = [(name, conf, t)]"
      by (simp_all add: op map_of_record_detection_other)
    from Cons.IH [OF this(1) Cons.prems(2) this(2)] show ?thesis by (simp add: op)
  qed
qed

lemma lower_Unknown: "lower ''Unknown'' = ''unknown''"
  by code_simp

lemma lower_Isuru: "lower ''Isuru'' = ''isuru''"
  by code_simp

lemma lower_isuru: "lower ''isuru'' = ''isuru''"
  by code_simp

lemma lower_Alice: "lower ''Alice'' = ''alice''"
  by code_simp

lemma lower_alice: "lower ''alice'' = ''alice''"
  by code_simp

lemma issued_append [simp]: "pwm s' = pwm s @ es \<Longrightarrow> issued s s' = es"
  by (simp add: issued_def)

lemma not_trusted_iff:
  "(\<not> trusted_detected results) = (\<forall>(name, conf) \<in> set results. lower name \<notin> set staff)"
  by (auto simp: trusted_detected_def list_ex_iff)

section \<open>The decision paths of a tick\<close>

text \<open>
  Claim C1, as the code has it. The recognition path (\<open>draw_results\<close>) and the
  automatic close never send the servo a command for the state the latch is already
  in. The button path sends the open command on every accepted press, whatever the
  latch state. So a tick issues a command for the state the latch is already in exactly
  when its press is accepted and the latch is open once \<open>draw_results\<close> has returned.
\<close>

theorem actuation_redundant_only_on_button_path:
  "\<not> redundant (servo_state s) (issued s (draw_results e results s))
   \<and> \<not> redundant (servo_state s) (issued s (auto_close e s))
   \<and> issued s (button_control e s) = (if press_accepted e s then [OpenEffect] else [])
   \<and> redundant (servo_state s) (tick_effects e results s)
       = (press_accepted e s \<and> servo_state (draw_results e results s))"
proof -
  have "\<not> redundant (servo_state s) (issued s (draw_results e results s))"
    by (simp add: draw_results_pwm closes_in_draw_def)
  moreover have "\<not> redundant (servo_state s) (issued s (auto_close e s))"
    by (simp add: auto_close_pwm closes_in_main_def)
  moreover have "issued s (button_control e s) = (if press_accepted e s then [OpenEffect] else [])"
    by (simp add: button_control_pwm)
  moreover have "redundant (servo_state s) (tick_effects e results s)
       = (press_accepted e s \<and> servo_state (draw_results e results s))"
    by (auto simp: tick_effects_eq draw_results_servo_state closes_in_draw_def
        closes_in_main_def button_control_servo_state)
  ultimately show ?thesis by blast
qed

text \<open>An instance: a first tick with a roster face and no press.\<close>

theorem actuation_redundant_only_on_button_path_witness:
  "\<not> press_accepted (uniform_env 10 False) (startup 1 1 [])
   \<and> \<not> redundant (servo_state (startup 1 1 []))
         (tick_effects (uniform_env 10 False) [(''Isuru'', 80)] (startup 1 1 []))"
  using actuation_redundant_only_on_button_path
          [of "startup 1 1 []" "uniform_env 10 False" "[(''Isuru'', 80)]"]
  by (simp add: press_accepted_def)

text \<open>
  Against the claim as worded: a press at time 10 opens the latch of a fresh process, and
  a second press at time 11 sends the open command again while the latch is open.
\<close>

theorem open_when_open_counterexample:
  "servo_state (engine_tick (uniform_env 10 True) [] (startup 1 1 []))
   \<and> tick_effects (uniform_env 11 True) []
       (engine_tick (uniform_env 10 True) [] (startup 1 1 [])) = [OpenEffect]
   \<and> redundant (servo_state (engine_tick (uniform_env 10 True) [] (startup 1 1 [])))
       (tick_effects (uniform_env 11 True) []
          (engine_tick (uniform_env 10 True) [] (startup 1 1 [])))"
  by (simp add: tick_effects_eq engine_tick_def auto_close_servo_state
        button_control_servo_state button_control_last_seen_time
        button_control_last_button_press draw_results_servo_state draw_results_last_seen_time
        closes_in_draw_def closes_in_main_def press_accepted_def trusted_detected_def
        startup_def BUTTON_PRESS_TIMEOUT_def SERVO_TIMEOUT_def)

text \<open>
  Claim C2, as the code has it. With one timestamp and one button sample per tick, a
  tick issues at most one servo command, except when a roster face opens the closed
  latch and the press of the same tick is accepted: then it issues exactly two, both
  the open command.
\<close>

theorem effects_per_tick:
  "(trusted_detected results \<and> \<not> servo_state s \<and> press_accepted (uniform_env now btn) s
      \<longrightarrow> tick_effects (uniform_env now btn) results s = [OpenEffect, OpenEffect])
   \<and> (\<not> (trusted_detected results \<and> \<not> servo_state s \<and> press_accepted (uniform_env now btn) s)
      \<longrightarrow> length (tick_effects (uniform_env now btn) results s) \<le> 1)"
  by (auto simp: tick_effects_eq closes_in_draw_def closes_in_main_def press_accepted_def
        button_control_servo_state button_control_last_seen_time draw_results_servo_state
        draw_results_last_seen_time SERVO_TIMEOUT_def BUTTON_PRESS_TIMEOUT_def)

text \<open>An instance of either case, on a fresh process.\<close>

theorem effects_per_tick_witness:
  "trusted_detected [(''Isuru'', 80)] \<and> \<not> servo_state (startup 1 1 [])
   \<and> press_accepted (uniform_env 10 True) (startup 1 1 [])
   \<and> tick_effects (uniform_env 10 True) [(''Isuru'', 80)] (startup 1 1 [])
       = [OpenEffect, OpenEffect]
   \<and> \<not> press_accepted (uniform_env 10 False) (startup 1 1 [])
   \<and> length (tick_effects (uniform_env 10 False) [(''Isuru'', 80)] (startup 1 1 [])) \<le> 1"
  using effects_per_tick [of "[(''Isuru'', 80)]" "startup 1 1 []" 10 True]
        effects_per_tick [of "[(''Isuru'', 80)]" "startup 1 1 []" 10 False]
  by (simp add: trusted_detected_def lower_Isuru staff_def press_accepted_def startup_def)

text \<open>
  Against the claim as worded: a roster face and a pressed button in the first tick of a
  fresh process give more than one command.
\<close>

theorem two_effects_counterexample:
  "\<not> length (tick_effects (uniform_env 10 True) [(''isuru'', 80)] (startup 1 1 [])) \<le> 1"
  by (simp add: tick_effects_eq closes_in_draw_def closes_in_main_def press_accepted_def
        button_control_servo_state button_control_last_seen_time draw_results_servo_state
        draw_results_last_seen_time trusted_detected_def lower_isuru staff_def startup_def
        BUTTON_PRESS_TIMEOUT_def)

text \<open>
  Claim C4. When every recognised name of a tick is \<open>"Unknown"\<close> or has a lower-case
  form outside the roster, the latch is closed and the button is not pressed, the tick
  issues no servo command and the latch stays closed.
\<close>

theorem untrusted_never_opens:
  assumes "\<forall>(name, conf) \<in> set results. name = ''Unknown'' \<or> lower name \<notin> set staff"
      and "\<not> servo_state s" and "\<not> b_main e"
  shows "tick_effects e results s = [] \<and> \<not> servo_state (engine_tick e results s)"
proof -
  have "lower ''Unknown'' \<notin> set staff" by (simp add: lower_Unknown staff_def)
  with assms(1) have "\<not> trusted_detected results"
    by (auto simp: not_trusted_iff)
  with assms(2,3) show ?thesis
    by (simp add: tick_effects_eq engine_tick_def auto_close_servo_state
        button_control_servo_state draw_results_servo_state closes_in_draw_def
        closes_in_main_def press_accepted_def)
qed

text \<open>An instance: an unknown face and a stranger in front of a fresh process.\<close>

theorem untrusted_never_opens_witness:
  "list_all (\<lambda>(name, conf). name = ''Unknown'' \<or> lower name \<notin> set staff)
      [(''Unknown'', 30), (''Alice'', 70 :: real)]
   \<and> \<not> servo_state (startup 1 1 []) \<and> \<not> b_main (uniform_env 10 False)
   \<and> tick_effects (uniform_env 10 False) [(''Unknown'', 30), (''Alice'', 70)] (startup 1 1 []) = []
   \<and> \<not> servo_state (engine_tick (uniform_env 10 False) [(''Unknown'', 30), (''Alice'', 70)]
          (startup 1 1 []))"
proof -
  have h1: "\<forall>(name, conf) \<in> set [(''Unknown'', 30), (''Alice'', 70 :: real)].
       name = ''Unknown'' \<or> lower name \<notin> set staff"
    by (simp add: lower_Alice staff_def)
  have h2: "\<not> servo_state (startup 1 1 [])" by (simp add: startup_def)
  have h3: "\<not> b_main (uniform_env 10 False)" by simp
  from untrusted_never_opens [OF h1 h2 h3] h1 h2 h3 show ?thesis by (simp add: list_all_iff)
qed



lemma trusted_Isuru: "trusted_detected [(''Isuru'', c)]"
  by (simp add: trusted_detected_def lower_Isuru staff_def)

lemma not_trusted_Nil: "\<not> trusted_detected []"
  by (simp add: trusted_detected_def)

lemma engine_run_append:
  "engine_run s (h @ [(results, btn, now)]) =
     engine_tick (uniform_env now btn) results (engine_run s h)"
  by (induction h arbitrary: s) auto

lemma last_button_press_run:
  "last_button_press (engine_run s h) = last_accepted_press (last_button_press s) h"
proof (induction h arbitrary: s)
  case Nil
  then show ?case by simp
next
  case (Cons x h)
  obtain results btn now where x: "x = (results, btn, now)" by (cases x)
  show ?case
    by (simp add: x Cons.IH engine_tick_last_button_press press_accepted_def)
qed

lemma close_in_tick_general:
  "(CloseEffect \<in> set (tick_effects e results s)) =
     ((servo_state s \<and> \<not> trusted_detected results
         \<and> t_draw e - last_seen_time s > SERVO_TIMEOUT \<and> \<not> b_draw e)
      \<or> ((press_accepted e s \<or> trusted_detected results
            \<or> (servo_state s \<and> \<not> (t_draw e - last_seen_time s > SERVO_TIMEOUT \<and> \<not> b_draw e)))
          \<and> t_close e
               - (if press_accepted e s then t_open_button e
                  else if trusted_detected results
                  then (if servo_state s then t_draw e else t_open_draw e)
                  else last_seen_time s)
              > BUTTON_PRESS_TIMEOUT
          \<and> \<not> b_close e))"
  by (auto simp: tick_effects_eq closes_in_draw_def closes_in_main_def
        button_control_servo_state button_control_last_seen_time draw_results_servo_state
        draw_results_last_seen_time)

lemma opened_by_open_servo:
  assumes "OpenEffect \<in> set (tick_effects e0 r0 s0)"
      and "servo_state (engine_tick e0 r0 s0)"
  shows "last_seen_time (engine_tick e0 r0 s0) =
           (if press_accepted e0 s0 then t_open_button e0 else t_open_draw e0)"
  using assms
  by (auto simp: tick_effects_eq engine_tick_last_seen_time split: if_splits)

lemma close_without_sighting_or_press:
  assumes "servo_state s" and "\<not> trusted_detected r" and "\<not> b_main e"
  shows "(CloseEffect \<in> set (tick_effects e r s)) =
           ((t_draw e - last_seen_time s > SERVO_TIMEOUT \<and> \<not> b_draw e)
            \<or> (t_close e - last_seen_time s > BUTTON_PRESS_TIMEOUT \<and> \<not> b_close e))"
  using assms
  by (auto simp: close_in_tick_general press_accepted_def SERVO_TIMEOUT_def
        BUTTON_PRESS_TIMEOUT_def)

text \<open>
  Claim C3, as the code has it. A tick issues the close command if and only if one of
  its two close checks passes: the one of \<open>draw_results\<close> (lines 119--120) or the one
  of the main loop (lines 163--164), each with its own reading of the clock and of the
  button. A check passes when the latch is open, more than the timeout has passed on
  its clock since \<open>last_seen_time\<close>, and its button sample is not pressed;
  \<open>last_seen_time\<close> is the clock of the last frame with a roster face or the clock that
  \<open>open_servo\<close> read itself at the last opening or accepted press, whichever came last.
  With one timestamp and one button sample per tick and timestamps that never
  decrease, this is: the latch is open, more than \<open>SERVO_TIMEOUT\<close> has passed since the
  last tick with a roster face, more than \<open>BUTTON_PRESS_TIMEOUT\<close> since the last accepted
  press, and the button is not held. And when \<open>open_servo\<close> has opened the latch and
  read the clock at \<open>t0\<close>, a following tick without roster face and without press at
  line 155 closes exactly when one of its two checks reads a clock more than the
  timeout after \<open>t0\<close> with its button sample unpressed; so it closes with every reading at
  \<open>t0 + SERVO_TIMEOUT + \<epsilon>\<close> and does not with every reading at
  \<open>t0 + SERVO_TIMEOUT - \<epsilon>\<close>.
\<close>

theorem close_after_rearm_timeout:
  assumes "nondecreasing_from 0 (h @ [(results, btn, now)])"
      and "sh = engine_run (startup ts tk old) h"
      and "OpenEffect \<in> set (tick_effects e0 r0 s0)"
      and "s1 = engine_tick e0 r0 s0" and "servo_state s1"
      and "\<not> trusted_detected r1" and "\<not> b_main e1" and "0 < \<epsilon>"
  shows
    "(CloseEffect \<in> set (tick_effects e r s)) =
       ((servo_state s \<and> \<not> trusted_detected r
           \<and> t_draw e - last_seen_time s > SERVO_TIMEOUT \<and> \<not> b_draw e)
        \<or> ((press_accepted e s \<or> trusted_detected r
              \<or> (servo_state s
                  \<and> \<not> (t_draw e - last_seen_time s > SERVO_TIMEOUT \<and> \<not> b_draw e)))
            \<and> t_close e
                 - (if press_accepted e s then t_open_button e
                    else if trusted_detected r
                    then (if servo_state s then t_draw e else t_open_draw e)
                    else last_seen_time s)
                > BUTTON_PRESS_TIMEOUT
            \<and> \<not> b_close e))
     \<and> (CloseEffect \<in> set (tick_effects (uniform_env now btn) results sh)) =
         (servo_state sh
          \<and> now - last_trusted_sighting 0 (h @ [(results, btn, now)]) > SERVO_TIMEOUT
          \<and> now - last_accepted_press 0 (h @ [(results, btn, now)]) > BUTTON_PRESS_TIMEOUT
          \<and> \<not> btn)
     \<and> last_seen_time s1 = (if press_accepted e0 s0 then t_open_button e0 else t_open_draw e0)
     \<and> (CloseEffect \<in> set (tick_effects e1 r1 s1)) =
         ((t_draw e1 - last_seen_time s1 > SERVO_TIMEOUT \<and> \<not> b_draw e1)
          \<or> (t_close e1 - last_seen_time s1 > BUTTON_PRESS_TIMEOUT \<and> \<not> b_close e1))
     \<and> CloseEffect \<in> set (tick_effects
           (uniform_env (last_seen_time s1 + SERVO_TIMEOUT + \<epsilon>) False) r1 s1)
     \<and> CloseEffect \<notin> set (tick_effects
           (uniform_env (last_seen_time s1 + SERVO_TIMEOUT - \<epsilon>) False) r1 s1)"
proof -
  have A: "(CloseEffect \<in> set (tick_effects e r s)) =
       ((servo_state s \<and> \<not> trusted_detected r
           \<and> t_draw e - last_seen_time s > SERVO_TIMEOUT \<and> \<not> b_draw e)
        \<or> ((press_accepted e s \<or> trusted_detected r
              \<or> (servo_state s
                  \<and> \<not> (t_draw e - last_seen_time s > SERVO_TIMEOUT \<and> \<not> b_draw e)))
            \<and> t_close e
                 - (if press_accepted e s then t_open_button e
                    else if trusted_detected r
                    then (if servo_state s then t_draw e else t_open_draw e)
                    else last_seen_time s)
                > BUTTON_PRESS_TIMEOUT
            \<and> \<not> b_close e))"
    by (rule close_in_tick_general)
  from assms(1) have nd: "nondecreasing_from 0 h" and le: "last_time 0 h \<le> now"
    by (simp_all add: nondecreasing_from_append)
  have inv: "engine_inv (last_trusted_sighting 0 h) (last_time 0 h) sh"
    unfolding assms(2) by (rule engine_inv_run [OF engine_inv_startup nd])
  have "last_button_press (engine_tick (uniform_env now btn) results sh)
      = last_accepted_press 0 (h @ [(results, btn, now)])"
    using last_button_press_run [of "startup ts tk old" "h @ [(results, btn, now)]"]
    by (simp add: engine_run_append assms(2) startup_def)
  with close_in_tick_iff [OF inv le, of btn results]
  have B: "(CloseEffect \<in> set (tick_effects (uniform_env now btn) results sh)) =
         (servo_state sh
          \<and> now - last_trusted_sighting 0 (h @ [(results, btn, now)]) > SERVO_TIMEOUT
          \<and> now - last_accepted_press 0 (h @ [(results, btn, now)]) > BUTTON_PRESS_TIMEOUT
          \<and> \<not> btn)"
    by (simp add: last_trusted_sighting_append)
  from opened_by_open_servo [OF assms(3)] assms(4,5)
  have C1: "last_seen_time s1
      = (if press_accepted e0 s0 then t_open_button e0 else t_open_draw e0)"
    by simp
  have C2: "(CloseEffect \<in> set (tick_effects e1 r1 s1)) =
         ((t_draw e1 - last_seen_time s1 > SERVO_TIMEOUT \<and> \<not> b_draw e1)
          \<or> (t_close e1 - last_seen_time s1 > BUTTON_PRESS_TIMEOUT \<and> \<not> b_close e1))"
    by (rule close_without_sighting_or_press [OF assms(5,6,7)])
  from close_without_sighting_or_press
         [OF assms(5,6), of "uniform_env (last_seen_time s1 + SERVO_TIMEOUT + \<epsilon>) False"]
       assms(8)
  have C3: "CloseEffect \<in> set (tick_effects
           (uniform_env (last_seen_time s1 + SERVO_TIMEOUT + \<epsilon>) False) r1 s1)"
    by simp
  from close_without_sighting_or_press
         [OF assms(5,6), of "uniform_env (last_seen_time s1 + SERVO_TIMEOUT - \<epsilon>) False"]
       assms(8)
  have C4: "CloseEffect \<notin> set (tick_effects
           (uniform_env (last_seen_time s1 + SERVO_TIMEOUT - \<epsilon>) False) r1 s1)"
    by (simp add: SERVO_TIMEOUT_def BUTTON_PRESS_TIMEOUT_def)
  from A B C1 C2 C3 C4 show ?thesis by blast
qed

lemmas tick_fields = engine_tick_def auto_close_servo_state button_control_servo_state
  draw_results_servo_state button_control_last_seen_time draw_results_last_seen_time
  button_control_last_button_press closes_in_draw_def closes_in_main_def press_accepted_def
  SERVO_TIMEOUT_def BUTTON_PRESS_TIMEOUT_def

lemma example_opened:
  "servo_state (engine_tick (uniform_env 10 False) [(''Isuru'', 80)] (startup 1 1 []))"
  "last_seen_time (engine_tick (uniform_env 10 False) [(''Isuru'', 80)] (startup 1 1 [])) = 10"
  "last_button_press (engine_tick (uniform_env 10 False) [(''Isuru'', 80)] (startup 1 1 [])) = 0"
  by (simp_all add: tick_fields trusted_Isuru startup_def)

lemma example_pressed:
  "servo_state (engine_run (startup 1 1 []) [([(''Isuru'', 80)], False, 10), ([], True, 12)])"
  by (simp add: tick_fields trusted_Isuru not_trusted_Nil startup_def)

lemma example_late_open:
  "OpenEffect \<in> set (tick_effects ((uniform_env (10 + 1 / 1000) False)\<lparr> t_draw := 10 \<rparr>)
      [(''Isuru'', 80)] (startup 1 1 []))"
  "servo_state (engine_tick ((uniform_env (10 + 1 / 1000) False)\<lparr> t_draw := 10 \<rparr>)
      [(''Isuru'', 80)] (startup 1 1 []))"
  "last_seen_time (engine_tick ((uniform_env (10 + 1 / 1000) False)\<lparr> t_draw := 10 \<rparr>)
      [(''Isuru'', 80)] (startup 1 1 [])) = 10 + 1 / 1000"
  "last_button_press (engine_tick ((uniform_env (10 + 1 / 1000) False)\<lparr> t_draw := 10 \<rparr>)
      [(''Isuru'', 80)] (startup 1 1 [])) = 0"
  by (simp_all add: tick_effects_eq tick_fields trusted_Isuru startup_def)

text \<open>
  Instances. The latch opened at 10, the button held at line 119 and released at line
  163 of the tick at 16: \<open>draw_results\<close> issues nothing and the main loop closes. A
  roster face at 10 and an accepted press at 12: the tick at 16 does not close, the
  tick at 18 does. A roster face in the frame of time 10 with \<open>open_servo\<close> reading the
  clock a millisecond later: a tick half a millisecond after that reading plus the
  timeout closes, a tick half a millisecond before does not.
\<close>

theorem close_after_rearm_timeout_witness:
  "issued (engine_tick (uniform_env 10 False) [(''Isuru'', 80)] (startup 1 1 []))
     (draw_results ((uniform_env 16 False)\<lparr> b_draw := True \<rparr>) []
        (engine_tick (uniform_env 10 False) [(''Isuru'', 80)] (startup 1 1 []))) = []
   \<and> CloseEffect \<in> set (tick_effects ((uniform_env 16 False)\<lparr> b_draw := True \<rparr>) []
         (engine_tick (uniform_env 10 False) [(''Isuru'', 80)] (startup 1 1 [])))
   \<and> nondecreasing_from 0
        ([([(''Isuru'', 80)], False, 10), ([], True, 12)] @ [([], False, 18)])
   \<and> last_accepted_press 0
        ([([(''Isuru'', 80)], False, 10), ([], True, 12)] @ [([], False, 16)]) = 12
   \<and> CloseEffect \<notin> set (tick_effects (uniform_env 16 False) []
         (engine_run (startup 1 1 []) [([(''Isuru'', 80)], False, 10), ([], True, 12)]))
   \<and> CloseEffect \<in> set (tick_effects (uniform_env 18 False) []
         (engine_run (startup 1 1 []) [([(''Isuru'', 80)], False, 10), ([], True, 12)]))
   \<and> OpenEffect \<in> set (tick_effects ((uniform_env (10 + 1 / 1000) False)\<lparr> t_draw := 10 \<rparr>)
         [(''Isuru'', 80)] (startup 1 1 []))
   \<and> CloseEffect \<in> set (tick_effects (uniform_env (10 + 1 / 1000 + 5 + 1 / 2000) False) []
         (engine_tick ((uniform_env (10 + 1 / 1000) False)\<lparr> t_draw := 10 \<rparr>)
            [(''Isuru'', 80)] (startup 1 1 [])))
   \<and> CloseEffect \<notin> set (tick_effects (uniform_env (10 + 1 / 1000 + 5 - 1 / 2000) False) []
         (engine_tick ((uniform_env (10 + 1 / 1000) False)\<lparr> t_draw := 10 \<rparr>)
            [(''Isuru'', 80)] (startup 1 1 [])))"
proof -
  let ?h = "[([(''Isuru'', 80)], False, 10), ([], True, 12)]"
  let ?s10 = "engine_tick (uniform_env 10 False) [(''Isuru'', 80)] (startup 1 1 [])"
  let ?e0 = "(uniform_env (10 + 1 / 1000) False)\<lparr> t_draw := 10 \<rparr>"
  let ?s1 = "engine_tick ?e0 [(''Isuru'', 80)] (startup 1 1 [])"
  have nd16: "nondecreasing_from 0 (?h @ [([], False, 16)])" by simp
  have nd18: "nondecreasing_from 0 (?h @ [([], False, 18)])" by simp
  have lt16: "last_trusted_sighting 0 (?h @ [([], False, 16)]) = 10"
    and lt18: "last_trusted_sighting 0 (?h @ [([], False, 18)]) = 10"
    and lp16: "last_accepted_press 0 (?h @ [([], False, 16)]) = 12"
    and lp18: "last_accepted_press 0 (?h @ [([], False, 18)]) = 12"
    by (simp_all add: trusted_Isuru not_trusted_Nil)
  have nodraw: "issued ?s10 (draw_results ((uniform_env 16 False)\<lparr> b_draw := True \<rparr>) [] ?s10) = []"
    by (simp add: draw_results_pwm closes_in_draw_def not_trusted_Nil)
  note at16 = close_after_rearm_timeout
         [where h = ?h and results = "[]" and btn = False and now = 16
            and sh = "engine_run (startup 1 1 []) ?h" and ts = 1 and tk = 1 and old = "[]"
            and ?e0.0 = ?e0 and ?r0.0 = "[(''Isuru'', 80)]" and ?s0.0 = "startup 1 1 []"
            and ?s1.0 = ?s1 and ?r1.0 = "[]" and ?e1.0 = "uniform_env 16 False"
            and \<epsilon> = "1 / 2000"
            and e = "(uniform_env 16 False)\<lparr> b_draw := True \<rparr>" and r = "[]" and s = ?s10,
          OF nd16 refl example_late_open(1) refl example_late_open(2) not_trusted_Nil]
  note at18 = close_after_rearm_timeout
         [where h = ?h and results = "[]" and btn = False and now = 18
            and sh = "engine_run (startup 1 1 []) ?h" and ts = 1 and tk = 1 and old = "[]"
            and ?e0.0 = ?e0 and ?r0.0 = "[(''Isuru'', 80)]" and ?s0.0 = "startup 1 1 []"
            and ?s1.0 = ?s1 and ?r1.0 = "[]" and ?e1.0 = "uniform_env 18 False"
            and \<epsilon> = "1 / 2000"
            and e = "(uniform_env 16 False)\<lparr> b_draw := True \<rparr>" and r = "[]" and s = ?s10,
          OF nd18 refl example_late_open(1) refl example_late_open(2) not_trusted_Nil]
  from at16 have a16: "CloseEffect \<in> set (tick_effects ((uniform_env 16 False)\<lparr> b_draw := True \<rparr>) [] ?s10)"
    and b16: "CloseEffect \<notin> set (tick_effects (uniform_env 16 False) []
         (engine_run (startup 1 1 []) ?h))"
    and c16: "CloseEffect \<in> set (tick_effects
           (uniform_env (last_seen_time ?s1 + SERVO_TIMEOUT + 1 / 2000) False) [] ?s1)"
    and d16: "CloseEffect \<notin> set (tick_effects
           (uniform_env (last_seen_time ?s1 + SERVO_TIMEOUT - 1 / 2000) False) [] ?s1)"
    using example_opened example_pressed lt16 lp16
    by (simp_all add: not_trusted_Nil press_accepted_def SERVO_TIMEOUT_def
          BUTTON_PRESS_TIMEOUT_def)
  from at18 have b18: "CloseEffect \<in> set (tick_effects (uniform_env 18 False) []
         (engine_run (startup 1 1 []) ?h))"
    using example_pressed lt18 lp18
    by (simp add: SERVO_TIMEOUT_def BUTTON_PRESS_TIMEOUT_def)
  from c16 [unfolded example_late_open(3)] d16 [unfolded example_late_open(3)] have c: "CloseEffect \<in> set (tick_effects
        (uniform_env (10 + 1 / 1000 + 5 + 1 / 2000) False) [] ?s1)"
    and d: "CloseEffect \<notin> set (tick_effects
        (uniform_env (10 + 1 / 1000 + 5 - 1 / 2000) False) [] ?s1)"
    by (simp_all add: SERVO_TIMEOUT_def)
  from nodraw a16 nd18 lp16 b16 b18 example_late_open(1) c d show ?thesis by blast
qed

text \<open>
  Against the claim as worded: a roster face is seen in the frame of time 10 and opens
  the latch, \<open>open_servo\<close> reading the clock a millisecond later; the button is never
  pressed. At the tick of time 15.0005 the latch is open, more than the timeout has
  passed since the sighting and since any press, the button is not held, and no
  command is issued.
\<close>

theorem late_rearm_counterexample:
  "servo_state (engine_tick ((uniform_env (10 + 1 / 1000) False)\<lparr> t_draw := 10 \<rparr>)
      [(''Isuru'', 80)] (startup 1 1 []))
   \<and> detections (engine_tick ((uniform_env (10 + 1 / 1000) False)\<lparr> t_draw := 10 \<rparr>)
      [(''Isuru'', 80)] (startup 1 1 []))
       = [(''Isuru'', \<lparr> start = 10, last_seen = 10, confidence = 80 \<rparr>)]
   \<and> last_button_press (engine_tick ((uniform_env (10 + 1 / 1000) False)\<lparr> t_draw := 10 \<rparr>)
      [(''Isuru'', 80)] (startup 1 1 [])) = 0
   \<and> (15 + 1 / 2000) - 10 > SERVO_TIMEOUT
   \<and> (15 + 1 / 2000) - 0 > BUTTON_PRESS_TIMEOUT
   \<and> tick_effects (uniform_env (15 + 1 / 2000) False) []
       (engine_tick ((uniform_env (10 + 1 / 1000) False)\<lparr> t_draw := 10 \<rparr>)
          [(''Isuru'', 80)] (startup 1 1 [])) = []"
proof -
  let ?s1 = "engine_tick ((uniform_env (10 + 1 / 1000) False)\<lparr> t_draw := 10 \<rparr>)
      [(''Isuru'', 80)] (startup 1 1 [])"
  have d: "detections ?s1 = [(''Isuru'', \<lparr> start = 10, last_seen = 10, confidence = 80 \<rparr>)]"
    by (simp add: engine_tick_def draw_results_detections record_detection_def startup_def)
  have e: "tick_effects (uniform_env (15 + 1 / 2000) False) [] ?s1 = []"
    using example_late_open(2,3)
    by (simp add: tick_effects_eq closes_in_draw_def closes_in_main_def press_accepted_def
          not_trusted_Nil button_control_servo_state button_control_last_seen_time
          draw_results_servo_state draw_results_last_seen_time SERVO_TIMEOUT_def
          BUTTON_PRESS_TIMEOUT_def)
  from example_late_open(2,4) d e show ?thesis
    by (simp add: SERVO_TIMEOUT_def BUTTON_PRESS_TIMEOUT_def)
qed

section \<open>Leaving the loop\<close>

lemma log_detections_Appended:
  "log_detections Appended now day s =
     Inr (s\<lparr> csv_file := csv_file s @ (if detections s = [] then []
                                       else [map (log_row now day) (detections s)]),
            detections := [] \<rparr>)"
  by (simp add: log_detections_def Let_def)

lemma log_detections_empty:
  "detections s = [] \<Longrightarrow> log_detections a now day s = Inr (s\<lparr> detections := [] \<rparr>)"
  by (simp add: log_detections_def Let_def)








lemmas run_defs = loop_body_def engine_tick_def draw_results_def button_control_def
  auto_close_def fps_display_def periodic_log_def log_detections_def log_row_def
  open_servo_def close_servo_def record_detection_def uniform_env_def uniform_loop_env_def
  startup_def finally_block_def main_def SERVO_TIMEOUT_def BUTTON_PRESS_TIMEOUT_def
  LOG_INTERVAL_def staff_def Let_def

lemma example_frame:
  "loop_body (uniform_env 10 False) (uniform_loop_env 10 ''2025-01-01 10:00:00'' ''2025-01-01'' False)
     [(''Isuru'', 80)] (startup 1 1 []) =
   (Continue,
    \<lparr> servo_state = True, last_seen_time = 10, last_button_press = 0, last_log_time = 1,
      start_time = 10, fps = 1 / 90,
      detections = [(''Isuru'', \<lparr> start = 10, last_seen = 10, confidence = 80 \<rparr>)],
      pwm = [OpenEffect], csv_file = [[csv_header]] \<rparr>)"
  by (simp add: run_defs lower_Isuru)

lemma example_run:
  "main_loop (startup 1 1 [])
     [Frame [(''Isuru'', 80)] (uniform_env 10 False)
        (uniform_loop_env 10 ''2025-01-01 10:00:00'' ''2025-01-01'' False), NoFrame]
   = Some (Break,
       \<lparr> servo_state = True, last_seen_time = 10, last_button_press = 0, last_log_time = 1,
         start_time = 10, fps = 1 / 90,
         detections = [(''Isuru'', \<lparr> start = 10, last_seen = 10, confidence = 80 \<rparr>)],
         pwm = [OpenEffect], csv_file = [[csv_header]] \<rparr>)"
  by (simp add: example_frame)




section \<open>Sessions\<close>

lemma py_round2_12 [simp]: "py_round2 12 = 12"
  by (simp add: py_round2_def round_half_even_def Let_def)

lemma py_round2_example: "py_round2 (1537 / 128) = 1201 / 100"
  by (simp add: py_round2_def round_half_even_def Let_def)

lemma map_of_record_detection:
  "name \<noteq> ''Unknown'' \<Longrightarrow> map_of ds name = Some info \<Longrightarrow>
     map_of (record_detection name conf t ds) name
       = Some (info\<lparr> last_seen := t, confidence := conf \<rparr>)"
  by (simp add: record_detection_def map_of_update_session)

text \<open>
  Claim C6, as the code has it. Sighting \<open>"alice"\<close> at time 0 with confidence 80 and at
  time 12 with confidence 65 leaves one session, and flushing it appends the single
  row with confidence 65 and duration 12. A repeated sighting keeps \<open>start\<close>, sets
  \<open>last_seen\<close> to the time of the sighting and overwrites \<open>confidence\<close>. The flushed
  duration is \<open>last_seen - start\<close> rounded to two decimal places.
\<close>

theorem session_update_and_flush:
  "record_detection ''alice'' 65 12 (record_detection ''alice'' 80 0 [])
     = [(''alice'', \<lparr> start = 0, last_seen = 12, confidence = 65 \<rparr>)]
   \<and> (detections s = record_detection ''alice'' 65 12 (record_detection ''alice'' 80 0 [])
        \<longrightarrow> log_detections Appended now day s
             = Inr (s\<lparr> csv_file :=
                         csv_file s @ [[[Str now, Str ''alice'', Num 65, Num 12, Str day]]],
                       detections := [] \<rparr>))
   \<and> (name \<noteq> ''Unknown'' \<and> map_of ds name = Some info
        \<longrightarrow> map_of (record_detection name conf t ds) name
             = Some (info\<lparr> last_seen := t, confidence := conf \<rparr>))
   \<and> (detections s \<noteq> []
        \<longrightarrow> log_detections Appended now day s
             = Inr (s\<lparr> csv_file := csv_file s @ [map (\<lambda>(name, info).
                         [Str now, Str name, Num (confidence info),
                          Num (py_round2 (last_seen info - start info)), Str day])
                         (detections s)],
                       detections := [] \<rparr>))"
proof -
  have a: "record_detection ''alice'' 65 12 (record_detection ''alice'' 80 0 [])
     = [(''alice'', \<lparr> start = 0, last_seen = 12, confidence = 65 \<rparr>)]"
    by (simp add: record_detection_def)
  have b: "detections s = record_detection ''alice'' 65 12 (record_detection ''alice'' 80 0 [])
        \<longrightarrow> log_detections Appended now day s
             = Inr (s\<lparr> csv_file :=
                         csv_file s @ [[[Str now, Str ''alice'', Num 65, Num 12, Str day]]],
                       detections := [] \<rparr>)"
    by (simp add: a log_detections_Appended log_row_def)
  have c: "name \<noteq> ''Unknown'' \<and> map_of ds name = Some info
        \<longrightarrow> map_of (record_detection name conf t ds) name
             = Some (info\<lparr> last_seen := t, confidence := conf \<rparr>)"
    by (simp add: map_of_record_detection)
  have "log_row now day = (\<lambda>(name, info).
                 [Str now, Str name, Num (confidence info),
                  Num (py_round2 (last_seen info - start info)), Str day])"
    by (auto simp: log_row_def fun_eq_iff)
  then have d: "detections s \<noteq> []
        \<longrightarrow> log_detections Appended now day s
             = Inr (s\<lparr> csv_file := csv_file s @ [map (\<lambda>(name, info).
                         [Str now, Str name, Num (confidence info),
                          Num (py_round2 (last_seen info - start info)), Str day])
                         (detections s)],
                       detections := [] \<rparr>)"
    by (simp add: log_detections_Appended)
  from a b c d show ?thesis by blast
qed

text \<open>An instance: the two sightings arrive through \<open>draw_results\<close> in a fresh process.\<close>

theorem session_update_and_flush_witness:
  "map_sum (\<lambda>(err, s'). csv_file s') csv_file
     (log_detections Appended ''2025-01-01 10:05:00'' ''2025-01-01''
        (draw_results (uniform_env 12 False) [(''alice'', 65)]
           (draw_results (uniform_env 0 False) [(''alice'', 80)] (startup 0 0 []))))
   = Inr [[csv_header],
          [[Str ''2025-01-01 10:05:00'', Str ''alice'', Num 65, Num 12, Str ''2025-01-01'']]]"
proof -
  let ?s = "draw_results (uniform_env 12 False) [(''alice'', 65)]
         (draw_results (uniform_env 0 False) [(''alice'', 80)] (startup 0 0 []))"
  have d: "detections ?s
      = record_detection ''alice'' 65 12 (record_detection ''alice'' 80 0 [])"
    by (simp add: draw_results_detections startup_def)
  have c: "csv_file ?s = [[csv_header]]"
    by (simp add: startup_def)
  from session_update_and_flush
         [of ?s "''2025-01-01 10:05:00''" "''2025-01-01''"] d c
  show ?thesis by simp
qed

text \<open>
  Against the claim as worded: with the second sighting at \<open>12 + 1/128\<close> the flushed
  duration is 12.01, not \<open>last_seen - start\<close>.
\<close>

theorem rounded_duration_counterexample:
  "map_sum (\<lambda>(err, s'). csv_file s') csv_file
     (log_detections Appended ''2025-01-01 10:05:00'' ''2025-01-01''
        (draw_results (uniform_env (12 + 1 / 128) False) [(''alice'', 65)]
           (draw_results (uniform_env 0 False) [(''alice'', 80)] (startup 0 0 []))))
   = Inr [[csv_header],
          [[Str ''2025-01-01 10:05:00'', Str ''alice'', Num 65, Num (1201 / 100),
            Str ''2025-01-01'']]]
   \<and> (1201 / 100 :: real) \<noteq> (12 + 1 / 128) - 0"
  by (simp add: log_detections_Appended draw_results_detections startup_def
        record_detection_def log_row_def py_round2_example)



lemma sessions_before_from_empty:
  assumes "sorted (map (\<lambda>(name, conf, t). t) ops)"
  shows "\<exists>t1. sessions_before t1 (record_all ops [])"
proof (cases ops)
  case Nil
  then show ?thesis by (simp add: sessions_before_def)
next
  case (Cons op rest)
  obtain name conf t where op: "op = (name, conf, t)" by (cases op)
  have "sessions_before t []" by (simp add: sessions_before_def)
  moreover from assms have "sorted (t # map (\<lambda>(name, conf, t). t) ops)"
    by (simp add: Cons op)
  ultimately show ?thesis by (rule sessions_before_record_all)
qed

lemma durations_nonneg:
  "sessions_before t1 ds \<Longrightarrow>
     list_all (\<lambda>row. \<exists>d. row ! 3 = Num d \<and> 0 \<le> d) (map (log_row now day) ds)"
  by (induction ds) (auto simp: sessions_before_def log_row_def py_round2_nonneg)

lemma sessions_ordered:
  "sessions_before t1 ds \<Longrightarrow> list_all (\<lambda>(name, info). start info \<le> last_seen info) ds"
  by (induction ds) (auto simp: sessions_before_def)

text \<open>
  Claim C8, as the code has it. After any sequence of sightings with non-decreasing
  timestamps, starting from no session, each name, compared exactly as spelled, has at
  most one session; every session has \<open>start \<le> last_seen\<close>; every duration a flush
  would emit is at least 0; and a name sighted exactly once has a session of duration 0.
\<close>

theorem sessions_keyed_by_exact_name:
  assumes "sorted (map (\<lambda>(name, conf, t). t) ops)"
  shows "distinct (map fst (record_all ops []))
         \<and> list_all (\<lambda>(name, info). start info \<le> last_seen info) (record_all ops [])
         \<and> list_all (\<lambda>row. \<exists>d. row ! 3 = Num d \<and> 0 \<le> d)
             (map (log_row now day) (record_all ops []))
         \<and> (name \<noteq> ''Unknown'' \<and> filter (\<lambda>op. fst op = name) ops = [(name, conf, t)]
              \<longrightarrow> map_of (record_all ops []) name
                     = Some \<lparr> start = t, last_seen = t, confidence = conf \<rparr>
                  \<and> log_row now day (name, \<lparr> start = t, last_seen = t, confidence = conf \<rparr>) ! 3
                     = Num 0)"
proof -
  from sessions_before_from_empty [OF assms] obtain t1
    where t1: "sessions_before t1 (record_all ops [])" by blast
  have a: "distinct (map fst (record_all ops []))"
    by (rule distinct_record_all) simp
  have d: "name \<noteq> ''Unknown'' \<and> filter (\<lambda>op. fst op = name) ops = [(name, conf, t)]
              \<longrightarrow> map_of (record_all ops []) name
                     = Some \<lparr> start = t, last_seen = t, confidence = conf \<rparr>
                  \<and> log_row now day (name, \<lparr> start = t, last_seen = t, confidence = conf \<rparr>) ! 3
                     = Num 0"
    using single_sighting [of "[]" name ops conf t] by (simp add: log_row_def)
  from a sessions_ordered [OF t1] durations_nonneg [OF t1] d show ?thesis by blast
qed

text \<open>An instance: \<open>"alice"\<close> seen twice with \<open>"bob"\<close> in between.\<close>

theorem sessions_keyed_by_exact_name_witness:
  "sorted (map (\<lambda>(name, conf, t). t) [(''alice'', 80, 0 :: real), (''bob'', 55, 3), (''alice'', 65, 12)])
   \<and> distinct (map fst (record_all [(''alice'', 80, 0), (''bob'', 55, 3), (''alice'', 65, 12)] []))
   \<and> map_of (record_all [(''alice'', 80, 0), (''bob'', 55, 3), (''alice'', 65, 12)] []) ''bob''
       = Some \<lparr> start = 3, last_seen = 3, confidence = 55 \<rparr>"
proof -
  have h: "sorted (map (\<lambda>(name, conf, t). t)
      [(''alice'', 80, 0 :: real), (''bob'', 55, 3), (''alice'', 65, 12)])"
    by simp
  from sessions_keyed_by_exact_name
         [OF h, of "''''" "''''" "''bob''" 55 3] h
  show ?thesis by simp
qed

text \<open>
  Against the claim as worded: \<open>"Alice"\<close> and \<open>"alice"\<close> are one identity when compared
  in lower case, and each gets a session of its own.
\<close>

theorem two_sessions_one_identity_counterexample:
  "record_all [(''Alice'', 80, 0), (''alice'', 70, 1)] []
     = [(''Alice'', \<lparr> start = 0, last_seen = 0, confidence = 80 \<rparr>),
        (''alice'', \<lparr> start = 1, last_seen = 1, confidence = 70 \<rparr>)]
   \<and> \<not> distinct (map (\<lambda>(name, info). lower name)
          (record_all [(''Alice'', 80, 0), (''alice'', 70, 1)] []))"
  by (simp add: record_detection_def lower_Alice lower_alice)

section \<open>The log file\<close>

lemma header_not_log_row: "csv_header \<noteq> log_row now day entry"
  by (cases entry) (simp add: log_row_def csv_header_def)

lemma header_not_in_rows: "csv_header \<notin> set (map (log_row now day) ds)"
  by (induction ds) (simp_all add: header_not_log_row)

lemma header_not_in_taken_rows: "csv_header \<notin> set (take k (map (log_row now day) ds))"
  using header_not_in_rows [of now day ds] set_take_subset [of k "map (log_row now day) ds"]
  by blast

lemma engine_tick_csv_file [simp]: "csv_file (engine_tick e results s) = csv_file s"
  by (simp add: engine_tick_def)

lemma log_detections_csv_file:
  "\<exists>ops. csv_file (final_state (log_detections a now day s)) = csv_file s @ ops
         \<and> csv_header \<notin> set (concat ops)"
proof (cases "detections s = []")
  case True
  then show ?thesis by (simp add: log_detections_empty final_state_def)
next
  case False
  show ?thesis
  proof (cases a)
    case Appended
    with False header_not_in_rows [of now day "detections s"] show ?thesis
      by (simp add: log_detections_Appended final_state_def del: set_map)
  next
    case (AppendFailed k)
    with False header_not_in_taken_rows [of k now day "detections s"] show ?thesis
      by (simp add: log_detections_def final_state_def del: set_map)
  qed
qed

lemma periodic_log_csv_file:
  "\<exists>ops. csv_file (final_state (periodic_log l s)) = csv_file s @ ops
         \<and> csv_header \<notin> set (concat ops)"
proof (cases "t_log l - last_log_time s \<ge> LOG_INTERVAL")
  case True
  from log_detections_csv_file [of "log_append l" "now_label l" "day_label l" s]
  obtain ops where ops:
    "csv_file (final_state (log_detections (log_append l) (now_label l) (day_label l) s))
       = csv_file s @ ops" "csv_header \<notin> set (concat ops)"
    by blast
  with True have "csv_file (final_state (periodic_log l s)) = csv_file s @ ops"
    by (cases "log_detections (log_append l) (now_label l) (day_label l) s")
       (auto simp: periodic_log_def final_state_def)
  with ops(2) show ?thesis by blast
next
  case False
  then show ?thesis by (simp add: periodic_log_def final_state_def)
qed

lemma loop_body_csv_file:
  "\<exists>ops. csv_file (snd (loop_body e l results s)) = csv_file s @ ops
         \<and> csv_header \<notin> set (concat ops)"
proof (cases "fps_display l (engine_tick e results s)")
  case (Inl err)
  then show ?thesis by (simp add: loop_body_def)
next
  case (Inr s2)
  then have same: "csv_file s2 = csv_file s"
    by (auto simp: fps_display_def split: if_splits)
  from periodic_log_csv_file [of l s2] obtain ops
    where ops: "csv_file (final_state (periodic_log l s2)) = csv_file s2 @ ops"
      "csv_header \<notin> set (concat ops)"
    by blast
  have "snd (loop_body e l results s) = final_state (periodic_log l s2)"
    using Inr by (cases "periodic_log l s2") (auto simp: loop_body_def final_state_def)
  with ops same show ?thesis by auto
qed

lemma main_loop_csv_file:
  "main_loop s evs = Some (c, s') \<Longrightarrow>
     \<exists>ops. csv_file s' = csv_file s @ ops \<and> csv_header \<notin> set (concat ops)"
proof (induction evs arbitrary: s)
  case Nil
  then show ?case by simp
next
  case (Cons ev evs)
  show ?case
  proof (cases ev)
    case NoFrame
    with Cons.prems show ?thesis by simp
  next
    case Interrupt
    with Cons.prems show ?thesis by simp
  next
    case (Frame results e l)
    obtain c1 s1 where lb: "loop_body e l results s = (c1, s1)"
      by (cases "loop_body e l results s")
    from loop_body_csv_file [of e l results s] lb
    obtain ops1 where ops1: "csv_file s1 = csv_file s @ ops1" "csv_header \<notin> set (concat ops1)"
      by auto
    show ?thesis
    proof (cases "c1 = Continue")
      case True
      with Cons.prems Frame lb have "main_loop s1 evs = Some (c, s')" by simp
      from Cons.IH [OF this] obtain ops2
        where "csv_file s' = csv_file s1 @ ops2" "csv_header \<notin> set (concat ops2)" by auto
      with ops1 have "csv_file s' = csv_file s @ (ops1 @ ops2)
          \<and> csv_header \<notin> set (concat (ops1 @ ops2))" by simp
      then show ?thesis by blast
    next
      case False
      with Cons.prems Frame lb have "s' = s1" by (cases c1) simp_all
      with ops1 show ?thesis by blast
    qed
  qed
qed

lemma finally_block_csv_file:
  "\<exists>ops. csv_file (final_state (finally_block fe now day s)) = csv_file s @ ops
         \<and> csv_header \<notin> set (concat ops)"
proof -
  from log_detections_csv_file [of "final_append fe" now day s] obtain ops
    where ops: "csv_file (final_state (log_detections (final_append fe) now day s))
        = csv_file s @ ops" "csv_header \<notin> set (concat ops)"
    by blast
  have "csv_file (final_state (finally_block fe now day s))
      = csv_file (final_state (log_detections (final_append fe) now day s))"
    by (cases "log_detections (final_append fe) now day s")
       (auto simp: finally_block_def final_state_def close_servo_def)
  with ops show ?thesis by auto
qed

text \<open>
  Claim C9, as the code has it. A run of the process appends one header row to what the
  file already held, before every row the run logs, and no other header row: when the
  loop has been left, and when the \<open>finally\<close> block has been left (by its end or by an
  exception), the file is the old content, the header, and data rows, so the number of
  header rows has grown by one.
\<close>

theorem one_header_per_run:
  assumes "main_loop (startup ts tk old) evs = Some (c, pre)"
  shows "\<exists>ops ops'.
           csv_file pre = old @ [[csv_header]] @ ops
           \<and> csv_file (final_state (finally_block fe now day pre))
               = old @ [[csv_header]] @ ops @ ops'
           \<and> csv_header \<notin> set (concat (ops @ ops'))
           \<and> count_list (concat (csv_file (final_state (finally_block fe now day pre))))
                 csv_header
               = count_list (concat old) csv_header + 1"
proof -
  from main_loop_csv_file [OF assms] obtain ops
    where ops: "csv_file pre = old @ [[csv_header]] @ ops" "csv_header \<notin> set (concat ops)"
    by (auto simp: startup_def)
  from finally_block_csv_file [of fe now day pre] obtain ops'
    where ops': "csv_file (final_state (finally_block fe now day pre)) = csv_file pre @ ops'"
      "csv_header \<notin> set (concat ops')"
    by auto
  from ops ops' have "count_list (concat (ops @ ops')) csv_header = 0"
    by (simp add: count_list_0_iff)
  with ops ops' have "csv_file pre = old @ [[csv_header]] @ ops
           \<and> csv_file (final_state (finally_block fe now day pre))
               = old @ [[csv_header]] @ ops @ ops'
           \<and> csv_header \<notin> set (concat (ops @ ops'))
           \<and> count_list (concat (csv_file (final_state (finally_block fe now day pre))))
                 csv_header
               = count_list (concat old) csv_header + 1"
    by simp
  then show ?thesis by blast
qed

text \<open>An instance: one frame with a roster face, then the camera fails, on an empty file.\<close>

theorem one_header_per_run_witness:
  "main_loop (startup 1 1 [])
     [Frame [(''Isuru'', 80)] (uniform_env 10 False)
        (uniform_loop_env 10 ''2025-01-01 10:00:00'' ''2025-01-01'' False), NoFrame]
   = Some (Break,
       \<lparr> servo_state = True, last_seen_time = 10, last_button_press = 0, last_log_time = 1,
         start_time = 10, fps = 1 / 90,
         detections = [(''Isuru'', \<lparr> start = 10, last_seen = 10, confidence = 80 \<rparr>)],
         pwm = [OpenEffect], csv_file = [[csv_header]] \<rparr>)
   \<and> count_list (concat (csv_file (final_state
        (finally_block no_fault ''2025-01-01 10:00:09'' ''2025-01-01''
       \<lparr> servo_state = True, last_seen_time = 10, last_button_press = 0, last_log_time = 1,
         start_time = 10, fps = 1 / 90,
         detections = [(''Isuru'', \<lparr> start = 10, last_seen = 10, confidence = 80 \<rparr>)],
         pwm = [OpenEffect], csv_file = [[csv_header]] \<rparr>)))) csv_header = 1"
proof -
  have ml: "main_loop (startup 1 1 [])
     [Frame [(''Isuru'', 80)] (uniform_env 10 False)
        (uniform_loop_env 10 ''2025-01-01 10:00:00'' ''2025-01-01'' False), NoFrame]
   = Some (Break,
       \<lparr> servo_state = True, last_seen_time = 10, last_button_press = 0, last_log_time = 1,
         start_time = 10, fps = 1 / 90,
         detections = [(''Isuru'', \<lparr> start = 10, last_seen = 10, confidence = 80 \<rparr>)],
         pwm = [OpenEffect], csv_file = [[csv_header]] \<rparr>)"
    by (rule example_run)
  from one_header_per_run [OF ml, of no_fault "''2025-01-01 10:00:09''" "''2025-01-01''"] ml
  show ?thesis by auto
qed

text \<open>
  Against the claim as worded: started again on the file that this run left, the
  process writes a second header row, after the data row of the first run.
\<close>

theorem header_again_after_restart_counterexample:
  "map_option (\<lambda>(c, s'). csv_file s')
     (main no_fault ''2025-01-01 10:00:09'' ''2025-01-01'' (startup 1 1 [])
        [Frame [(''Isuru'', 80)] (uniform_env 10 False)
           (uniform_loop_env 10 ''2025-01-01 10:00:00'' ''2025-01-01'' False), NoFrame])
   = Some [[csv_header],
           [[Str ''2025-01-01 10:00:09'', Str ''Isuru'', Num 80, Num 0, Str ''2025-01-01'']]]
   \<and> concat (csv_file (startup 20 20
        [[csv_header],
         [[Str ''2025-01-01 10:00:09'', Str ''Isuru'', Num 80, Num 0, Str ''2025-01-01'']]]))
      = [csv_header,
         [Str ''2025-01-01 10:00:09'', Str ''Isuru'', Num 80, Num 0, Str ''2025-01-01''],
         csv_header]
   \<and> count_list (concat (csv_file (startup 20 20
        [[csv_header],
         [[Str ''2025-01-01 10:00:09'', Str ''Isuru'', Num 80, Num 0, Str ''2025-01-01'']]])))
        csv_header = 2"
proof -
  have "map_option (\<lambda>(c, s'). csv_file s')
     (main no_fault ''2025-01-01 10:00:09'' ''2025-01-01'' (startup 1 1 [])
        [Frame [(''Isuru'', 80)] (uniform_env 10 False)
           (uniform_loop_env 10 ''2025-01-01 10:00:00'' ''2025-01-01'' False), NoFrame])
   = Some [[csv_header],
           [[Str ''2025-01-01 10:00:09'', Str ''Isuru'', Num 80, Num 0, Str ''2025-01-01'']]]"
    by (simp add: main_def example_run finally_block_def log_detections_Appended no_fault_def
          close_servo_def log_row_def del: main_loop.simps)
  then show ?thesis
    by (simp add: startup_def csv_header_def)
qed

end
